theory Spec2Isabelle
  imports Main "HOL-Library.AList"
begin

section \<open>Python strings\<close>

text \<open>
  A Python \<open>str\<close> is modelled as a \<open>string\<close> whose characters are the code points
  below 256. The functions of this section are the \<open>str\<close> methods and built-ins that
  \<^verbatim>\<open>runner/config.py\<close> and the \<^verbatim>\<open>configparser\<close> methods it calls rely on.
\<close>

definition isspace :: "char \<Rightarrow> bool" where
  \<comment> \<open>\<^verbatim>\<open>str.isspace\<close> on one code point below 256\<close>
  "isspace c \<longleftrightarrow> (of_char c :: nat) \<in> set [9, 10, 11, 12, 13, 28, 29, 30, 31, 32, 133, 160]"

definition strip :: "string \<Rightarrow> string" where
  \<comment> \<open>\<^verbatim>\<open>s.strip()\<close>\<close>
  "strip s = rev (dropWhile isspace (rev (dropWhile isspace s)))"

definition lower_char :: "char \<Rightarrow> char" where
  "lower_char c =
     (let n = (of_char c :: nat) in
      if (65 \<le> n \<and> n \<le> 90) \<or> (192 \<le> n \<and> n \<le> 222 \<and> n \<noteq> 215)
      then char_of (n + 32) else c)"

definition lower :: "string \<Rightarrow> string" where
  \<comment> \<open>\<^verbatim>\<open>s.lower()\<close>\<close>
  "lower s = map lower_char s"

fun split :: "char \<Rightarrow> string \<Rightarrow> string list" where
  \<comment> \<open>\<^verbatim>\<open>s.split(sep)\<close> for a separator of one character\<close>
  "split sep [] = [[]]"
| "split sep (c # cs) =
     (if c = sep then [] # split sep cs
      else (case split sep cs of
              [] \<Rightarrow> [[c]]
            | piece # pieces \<Rightarrow> (c # piece) # pieces))"

fun join :: "string \<Rightarrow> string list \<Rightarrow> string" where
  \<comment> \<open>\<^verbatim>\<open>sep.join(xs)\<close>\<close>
  "join sep [] = []"
| "join sep [x] = x"
| "join sep (x # y # ys) = x @ sep @ join sep (y # ys)"

definition is_digit :: "char \<Rightarrow> bool" where
  "is_digit c \<longleftrightarrow> 48 \<le> (of_char c :: nat) \<and> (of_char c :: nat) \<le> 57"

definition int_space :: "char \<Rightarrow> bool" where
  \<comment> \<open>the white space that \<^verbatim>\<open>int(s)\<close> accepts around a literal\<close>
  "int_space c \<longleftrightarrow> (of_char c :: nat) \<in> set [9, 10, 11, 12, 13, 32, 133, 160]"

fun underscores_ok :: "string \<Rightarrow> bool" where
  \<comment> \<open>digits, with single underscores between digits only\<close>
  "underscores_ok [] = False"
| "underscores_ok [c] = is_digit c"
| "underscores_ok (c # d # cs) =
     (if is_digit c then
        (if d = CHR ''_'' then (case cs of [] \<Rightarrow> False | e # _ \<Rightarrow> is_digit e \<and> underscores_ok cs)
         else underscores_ok (d # cs))
      else False)"

definition digits_value :: "string \<Rightarrow> int" where
  "digits_value ds = foldl (\<lambda>acc c. 10 * acc + (int (of_char c) - 48)) 0 ds"

definition py_int :: "string \<Rightarrow> int option" where
  \<comment> \<open>\<^verbatim>\<open>int(s)\<close>: \<open>None\<close> stands for the \<^verbatim>\<open>ValueError\<close>\<close>
  "py_int s =
     (let t = rev (dropWhile int_space (rev (dropWhile int_space s)));
          (negative, body) = (case t of
                     [] \<Rightarrow> (False, [])
                   | c # cs \<Rightarrow> if c = CHR ''-'' then (True, cs)
                              else if c = CHR ''+'' then (False, cs)
                              else (False, t))
      in if underscores_ok body
         then (let v = digits_value (filter (\<lambda>c. c \<noteq> CHR ''_'') body)
               in Some (if negative then - v else v))
         else None)"

section \<open>The \<^verbatim>\<open>configparser.ConfigParser\<close> methods used by the runner\<close>

text \<open>
  The state of a \<^verbatim>\<open>ConfigParser\<close> after \<^verbatim>\<open>read\<close>: the options of the
  \<^verbatim>\<open>[DEFAULT]\<close> section and, in file order, the other sections with their options.
  Option names are stored as the parser stores them (passed through \<^verbatim>\<open>optionxform\<close>).
\<close>

type_synonym section_dict = "(string \<times> string) list"

record ConfigParser =
  p_defaults :: section_dict
  p_sections :: "(string \<times> section_dict) list"

datatype error =
    NoSectionError string
      \<comment> \<open>section\<close>
  | NoOptionError string string
      \<comment> \<open>option, section\<close>
  | ValueError string
      \<comment> \<open>raised by \<^verbatim>\<open>int\<close> and by \<^verbatim>\<open>getboolean\<close>; carries the offending text\<close>
  | InterpolationSyntaxError string string
      \<comment> \<open>option, section\<close>
  | InterpolationMissingOptionError string string string
      \<comment> \<open>option, section, the missing reference\<close>
  | InterpolationDepthError string string
      \<comment> \<open>option, section\<close>
  | ParsingError
      \<comment> \<open>any error \<^verbatim>\<open>read\<close> raises on a file that is not valid INI\<close>

definition default_section :: string where
  "default_section = ''DEFAULT''"

definition MAX_INTERPOLATION_DEPTH :: nat where
  "MAX_INTERPOLATION_DEPTH = 10"

definition optionxform :: "string \<Rightarrow> string" where
  "optionxform optionstr = lower optionstr"

definition sections :: "ConfigParser \<Rightarrow> string list" where
  "sections p = map fst (p_sections p)"

definition unify_values :: "ConfigParser \<Rightarrow> string \<Rightarrow> error + (string \<rightharpoonup> string)" where
  \<comment> \<open>the chain of look-ups: the section first, then \<^verbatim>\<open>[DEFAULT]\<close>\<close>
  "unify_values p section =
     (case map_of (p_sections p) section of
        Some sectiondict \<Rightarrow> Inr (map_of (p_defaults p) ++ map_of sectiondict)
      | None \<Rightarrow>
          if section \<noteq> default_section then Inl (NoSectionError section)
          else Inr (map_of (p_defaults p)))"

definition KEYCRE_match :: "string \<Rightarrow> (string \<times> string) option" where
  \<comment> \<open>\<^verbatim>\<open>%\(([^)]+)\)s\<close> matched at the start of the text: the group and what follows the match\<close>
  "KEYCRE_match rest =
     (case rest of
        a # b # cs \<Rightarrow>
          if a = CHR ''%'' \<and> b = CHR ''('' then
            (let name = takeWhile (\<lambda>c. c \<noteq> CHR '')'') cs;
                 after = dropWhile (\<lambda>c. c \<noteq> CHR '')'') cs
             in if name \<noteq> [] \<and> take 2 after = '')s'' then Some (name, drop 2 after) else None)
          else None
      | _ \<Rightarrow> None)"

function interpolate_some ::
  "string \<Rightarrow> string \<Rightarrow> string \<Rightarrow> (string \<rightharpoonup> string) \<Rightarrow> nat \<Rightarrow> error + string" where
  "interpolate_some option rest section m depth =
     (if depth > MAX_INTERPOLATION_DEPTH then Inl (InterpolationDepthError option section)
      else if CHR ''%'' \<notin> set rest then Inr rest
      else
        (let before = takeWhile (\<lambda>c. c \<noteq> CHR ''%'') rest;
             rest1 = dropWhile (\<lambda>c. c \<noteq> CHR ''%'') rest;
             c = take 1 (drop 1 rest1)
         in if c = ''%'' then
              (case interpolate_some option (drop 2 rest1) section m depth of
                 Inl e \<Rightarrow> Inl e
               | Inr tail \<Rightarrow> Inr (before @ ''%'' @ tail))
            else if c = ''('' then
              (case KEYCRE_match rest1 of
                 None \<Rightarrow> Inl (InterpolationSyntaxError option section)
               | Some (name, rest2) \<Rightarrow>
                   (case m (optionxform name) of
                      None \<Rightarrow> Inl (InterpolationMissingOptionError option section (optionxform name))
                    | Some v \<Rightarrow>
                        (case (if CHR ''%'' \<in> set v
                               then interpolate_some option v section m (depth + 1)
                               else Inr v) of
                           Inl e \<Rightarrow> Inl e
                         | Inr expansion \<Rightarrow>
                             (case interpolate_some option rest2 section m depth of
                                Inl e \<Rightarrow> Inl e
                              | Inr tail \<Rightarrow> Inr (before @ expansion @ tail)))))
            else Inl (InterpolationSyntaxError option section)))"
  by pat_completeness auto

definition get :: "ConfigParser \<Rightarrow> string \<Rightarrow> string \<Rightarrow> error + string" where
  \<comment> \<open>\<^verbatim>\<open>get(section, option)\<close>: no fallback argument, interpolation on\<close>
  "get p section option =
     (case unify_values p section of
        Inl e \<Rightarrow> Inl e
      | Inr d \<Rightarrow>
          (case d (optionxform option) of
             None \<Rightarrow> Inl (NoOptionError (optionxform option) section)
           | Some v \<Rightarrow> interpolate_some (optionxform option) v section d 1))"

definition getint :: "ConfigParser \<Rightarrow> string \<Rightarrow> string \<Rightarrow> error + int" where
  "getint p section option =
     (case get p section option of
        Inl e \<Rightarrow> Inl e
      | Inr s \<Rightarrow> (case py_int s of None \<Rightarrow> Inl (ValueError s) | Some i \<Rightarrow> Inr i))"

definition BOOLEAN_STATES :: "(string \<times> bool) list" where
  "BOOLEAN_STATES =
     [(''1'', True), (''yes'', True), (''true'', True), (''on'', True),
      (''0'', False), (''no'', False), (''false'', False), (''off'', False)]"

definition getboolean :: "ConfigParser \<Rightarrow> string \<Rightarrow> string \<Rightarrow> error + bool" where
  "getboolean p section option =
     (case get p section option of
        Inl e \<Rightarrow> Inl e
      | Inr s \<Rightarrow>
          (case map_of BOOLEAN_STATES (lower s) of
             None \<Rightarrow> Inl (ValueError s)
           | Some b \<Rightarrow> Inr b))"

section \<open>The constants and the descriptor class the runner imports\<close>

text \<open>
  \<^verbatim>\<open>runner/constants.py\<close> and \<^verbatim>\<open>runner/dbsystem.py\<close> are not part of the sources at
  hand, so \<^verbatim>\<open>SUPPORTED_DBS\<close>, \<^verbatim>\<open>DEFAULT_TABLENAME\<close> and the compiled pattern
  \<^verbatim>\<open>RE_DBNAME_LABEL\<close> are parameters of the model. Of the pattern only the two uses the
  runner makes are kept: \<open>re_search\<close> is \<^verbatim>\<open>RE_DBNAME_LABEL.search(db)\<close> followed by the
  unpacking \<^verbatim>\<open>label, = label.groups(0)\<close> (\<open>None\<close> when the pattern matches nowhere, else
  the text of its one group), and \<open>re_sub\<close> is \<^verbatim>\<open>RE_DBNAME_LABEL.sub("", db)\<close>.
\<close>

record pattern =
  re_search :: "string \<Rightarrow> string option"
  re_sub :: "string \<Rightarrow> string"

record constants =
  SUPPORTED_DBS :: "string list"
  DEFAULT_TABLENAME :: string
  RE_DBNAME_LABEL :: pattern

datatype val = IntVal int | BoolVal bool | StrVal string

type_synonym config = "(string \<times> val) list"

text \<open>
  Modelled from the spec: \<^verbatim>\<open>DbSystem\<close> (\<^verbatim>\<open>runner/dbsystem.py\<close> is missing). The spec
  describes the descriptor as the tuple of database name, label, option set and table
  name, stored as the constructor receives them.
\<close>

record DbSystem =
  db_name :: string
  db_config :: config
  db_label :: string
  db_tablename :: string

text \<open>
  Modelled from the spec: the values of \<^verbatim>\<open>runner/constants.py\<close>, used where a concrete
  run is evaluated. The spec's examples give \<^verbatim>\<open>mysql\<close> and \<^verbatim>\<open>postgres\<close> as supported
  names and \<^verbatim>\<open>mysql(a)\<close> as a labelled declaration; the pattern taken here is
  \<^verbatim>\<open>\(([^)]*)\)\<close>.
\<close>

definition label_search :: "string \<Rightarrow> string option" where
  "label_search db =
     (case dropWhile (\<lambda>c. c \<noteq> CHR ''('') db of
        [] \<Rightarrow> None
      | _ # cs \<Rightarrow> if CHR '')'' \<in> set cs then Some (takeWhile (\<lambda>c. c \<noteq> CHR '')'') cs) else None)"

function label_sub :: "string \<Rightarrow> string" where
  "label_sub [] = []"
| "label_sub (c # cs) =
     (if c = CHR ''('' \<and> CHR '')'' \<in> set cs
      then label_sub (drop 1 (dropWhile (\<lambda>x. x \<noteq> CHR '')'') cs))
      else c # label_sub cs)"
  by pat_completeness auto

definition spec_constants :: constants where
  "spec_constants =
     \<lparr>SUPPORTED_DBS = [''mysql'', ''postgres''],
      DEFAULT_TABLENAME = ''usertable'',
      RE_DBNAME_LABEL = \<lparr>re_search = label_search, re_sub = label_sub\<rparr>\<rparr>"

section \<open>\<^verbatim>\<open>RunnerConfig\<close>\<close>

text \<open>
  What a method prints is returned with its result, as the list of the lines printed;
  an exception is the \<open>Inl\<close> of the result, and the lines printed before it are kept.
\<close>

type_synonym printed = "string list"

datatype marker =
    IntObj
      \<comment> \<open>\<^verbatim>\<open>int()\<close>\<close>
  | BoolObj
      \<comment> \<open>\<^verbatim>\<open>bool()\<close>\<close>
  | StrObj
      \<comment> \<open>\<^verbatim>\<open>str()\<close>\<close>
  | Callable "string \<Rightarrow> val"
  | OtherObj
      \<comment> \<open>an object of any other type that is not callable\<close>

text \<open>
  \<^verbatim>\<open>OPTION_KEYS\<close> is a dict literal, iterated in the order in which it is written; each
  key comes with the object whose type the loop inspects.
\<close>

definition OPTION_KEYS :: "(string \<times> marker) list" where
  "OPTION_KEYS =
     [(''trials'', IntObj),
      (''min_mpl'', IntObj),
      (''max_mpl'', IntObj),
      (''inc_mpl'', IntObj),
      (''output'', Callable (\<lambda>s. StrVal (lower s))),
      (''workload'', StrObj),
      (''output_plots'', BoolObj)]"

fun process_config_keys_loop ::
  "ConfigParser \<Rightarrow> string \<Rightarrow> (string \<times> marker) list \<Rightarrow> config \<Rightarrow> printed \<Rightarrow> printed \<times> (error + config)"
where
  "process_config_keys_loop p section [] config out = (out, Inr config)"
| "process_config_keys_loop p section ((k, t) # items) config out =
     (case t of
        IntObj \<Rightarrow>
          (case getint p section k of
             Inl e \<Rightarrow> (out, Inl e)
           | Inr i \<Rightarrow> process_config_keys_loop p section items (AList.update k (IntVal i) config) out)
      | BoolObj \<Rightarrow>
          (case getboolean p section k of
             Inl e \<Rightarrow> (out, Inl e)
           | Inr b \<Rightarrow> process_config_keys_loop p section items (AList.update k (BoolVal b) config) out)
      | StrObj \<Rightarrow>
          (case get p section k of
             Inl e \<Rightarrow> (out, Inl e)
           | Inr s \<Rightarrow> process_config_keys_loop p section items (AList.update k (StrVal s) config) out)
      | Callable f \<Rightarrow>
          (case get p section k of
             Inl e \<Rightarrow> (out, Inl e)
           | Inr s \<Rightarrow> process_config_keys_loop p section items (AList.update k (f s) config) out)
      | OtherObj \<Rightarrow>
          process_config_keys_loop p section items config
            (out @ [''Warning: skipping key '' @ k @ '' with invalid type'']))"

definition process_config_keys :: "ConfigParser \<Rightarrow> string \<Rightarrow> printed \<times> (error + config)" where
  "process_config_keys p section = process_config_keys_loop p section OPTION_KEYS [] []"

definition invalid_database_message :: "constants \<Rightarrow> string \<Rightarrow> string" where
  "invalid_database_message c db =
     ''Invalid database found: '' @ db @ ''. Only ('' @ join '','' (SUPPORTED_DBS c)
       @ '') are supported. Skipping...''"

fun process_dbs_loop ::
  "constants \<Rightarrow> ConfigParser \<Rightarrow> config \<Rightarrow> string list \<Rightarrow> DbSystem list \<Rightarrow> printed
     \<Rightarrow> printed \<times> (error + DbSystem list)"
where
  "process_dbs_loop c p config [] db_instances out = (out, Inr db_instances)"
| "process_dbs_loop c p config (db0 # rest) db_instances out =
     (let (label, db) =
            (case re_search (RE_DBNAME_LABEL c) db0 of
               Some l \<Rightarrow> (l, re_sub (RE_DBNAME_LABEL c) db0)
             | None \<Rightarrow> ([], db0))
      in if lower db \<notin> set (SUPPORTED_DBS c)
         then process_dbs_loop c p config rest db_instances (out @ [invalid_database_message c db])
         else
           (case get p ''tablename'' (DEFAULT_TABLENAME c) of
              Inl e \<Rightarrow> (out, Inl e)
            | Inr tablename \<Rightarrow>
                process_dbs_loop c p config rest
                  (db_instances @
                     [\<lparr>db_name = db, db_config = config, db_label = label,
                       db_tablename = tablename\<rparr>])
                  out))"

definition process_dbs ::
  "constants \<Rightarrow> ConfigParser \<Rightarrow> string \<Rightarrow> config \<Rightarrow> printed \<times> (error + DbSystem list)" where
  "process_dbs c p section config =
     process_dbs_loop c p config (map strip (split CHR '','' section)) [] []"

fun process_sections_loop ::
  "constants \<Rightarrow> ConfigParser \<Rightarrow> string list \<Rightarrow> DbSystem list \<Rightarrow> printed
     \<Rightarrow> printed \<times> (error + DbSystem list)"
where
  "process_sections_loop c p [] dbs out = (out, Inr dbs)"
| "process_sections_loop c p (section # rest) dbs out =
     (case process_config_keys p section of
        (out1, Inl e) \<Rightarrow> (out @ out1, Inl e)
      | (out1, Inr config) \<Rightarrow>
          (case process_dbs c p section config of
             (out2, Inl e) \<Rightarrow> (out @ out1 @ out2, Inl e)
           | (out2, Inr new) \<Rightarrow> process_sections_loop c p rest (dbs @ new) (out @ out1 @ out2)))"

definition process_sections :: "constants \<Rightarrow> ConfigParser \<Rightarrow> printed \<times> (error + DbSystem list)" where
  "process_sections c p = process_sections_loop c p (sections p) [] []"

text \<open>
  \<^verbatim>\<open>__init__\<close> builds a new parser, reads the file into it and stores the parser and
  the descriptors in the object. The files are modelled by what that \<^verbatim>\<open>read\<close> leaves
  in a new parser for each path: the parsed content, an empty parser for a path that
  cannot be opened, or the parsing error.
\<close>

type_synonym files = "string \<Rightarrow> error + ConfigParser"

record RunnerConfig =
  self_config :: ConfigParser
  self_dbs :: "DbSystem list"

definition RunnerConfig_init ::
  "constants \<Rightarrow> files \<Rightarrow> RunnerConfig \<Rightarrow> string \<Rightarrow> printed \<times> (error + RunnerConfig)" where
  "RunnerConfig_init c fs self configfile =
     (case fs configfile of
        Inl e \<Rightarrow> ([], Inl e)
      | Inr parser \<Rightarrow>
          (let self1 = self\<lparr>self_config := parser\<rparr> in
           case process_sections c (self_config self1) of
             (out, Inl e) \<Rightarrow> (out, Inl e)
           | (out, Inr ds) \<Rightarrow> (out, Inr (self1\<lparr>self_dbs := ds\<rparr>))))"

section \<open>Notions used to state the properties\<close>

text \<open>
  A section lacks an option when neither its own options nor those of \<^verbatim>\<open>[DEFAULT]\<close>
  have it (the parser's \<^verbatim>\<open>has_option\<close> is false). An item of \<^verbatim>\<open>OPTION_KEYS\<close>
  resolves in a section when the call the loop makes for it returns; the options of
  a file resolve when every item does in every section. A section is
  processed without error when both its options and its header are. The declarations of
  a header are its comma-separated pieces, stripped, each split into bare name and label;
  the valid ones are those whose lower-cased bare name is supported.
\<close>

definition lacks_option :: "ConfigParser \<Rightarrow> string \<Rightarrow> string \<Rightarrow> bool" where
  "lacks_option p section option =
     (case map_of (p_sections p) section of
        None \<Rightarrow> False
      | Some sectiondict \<Rightarrow>
          map_of sectiondict (optionxform option) = None
          \<and> map_of (p_defaults p) (optionxform option) = None)"

definition resolves :: "ConfigParser \<Rightarrow> string \<Rightarrow> string \<times> marker \<Rightarrow> bool" where
  "resolves p section item =
     (case item of
        (k, IntObj) \<Rightarrow> \<not> isl (getint p section k)
      | (k, BoolObj) \<Rightarrow> \<not> isl (getboolean p section k)
      | (k, StrObj) \<Rightarrow> \<not> isl (get p section k)
      | (k, Callable f) \<Rightarrow> \<not> isl (get p section k)
      | (k, OtherObj) \<Rightarrow> True)"

definition section_ok :: "constants \<Rightarrow> ConfigParser \<Rightarrow> string \<Rightarrow> bool" where
  "section_ok c p section =
     (case process_config_keys p section of
        (out1, Inl e) \<Rightarrow> False
      | (out1, Inr config) \<Rightarrow>
          (case process_dbs c p section config of
             (out2, Inl e) \<Rightarrow> False
           | (out2, Inr new) \<Rightarrow> True))"

definition name_and_label :: "constants \<Rightarrow> string \<Rightarrow> string \<times> string" where
  "name_and_label c piece =
     (case re_search (RE_DBNAME_LABEL c) piece of
        Some l \<Rightarrow> (re_sub (RE_DBNAME_LABEL c) piece, l)
      | None \<Rightarrow> (piece, []))"

definition valid_declarations :: "constants \<Rightarrow> string \<Rightarrow> (string \<times> string) list" where
  "valid_declarations c header =
     filter (\<lambda>(name, label). lower name \<in> set (SUPPORTED_DBS c))
       (map (name_and_label c) (map strip (split CHR '','' header)))"

definition options_resolve :: "ConfigParser \<Rightarrow> bool" where
  "options_resolve p \<longleftrightarrow>
     (\<forall>section\<in>set (sections p). \<forall>item\<in>set OPTION_KEYS. resolves p section item)"

definition has_required_options :: "ConfigParser \<Rightarrow> bool" where
  "has_required_options p =
     list_all (\<lambda>section. list_all (\<lambda>item. \<not> lacks_option p section (fst item)) OPTION_KEYS)
       (sections p)"

section \<open>Example configurations\<close>

text \<open>
  The option set of the spec's round-trip example, with the output format in upper
  case, and the option set it resolves to.
\<close>

definition example_options :: section_dict where
  "example_options =
     [(''trials'', ''5''), (''min_mpl'', ''1''), (''max_mpl'', ''4''), (''inc_mpl'', ''1''),
      (''output'', ''CSV''), (''workload'', ''w.txt''), (''output_plots'', ''true'')]"

definition example_config :: config where
  "example_config =
     [(''trials'', IntVal 5), (''min_mpl'', IntVal 1), (''max_mpl'', IntVal 4),
      (''inc_mpl'', IntVal 1), (''output'', StrVal ''csv''), (''workload'', StrVal ''w.txt''),
      (''output_plots'', BoolVal True)]"

definition cfg_single :: ConfigParser where
  \<comment> \<open>one section \<^verbatim>\<open>[mysql]\<close> with all the options, and no \<^verbatim>\<open>tablename\<close> entry\<close>
  "cfg_single = \<lparr>p_defaults = [], p_sections = [(''mysql'', example_options)]\<rparr>"

definition cfg_foodb_mysql :: ConfigParser where
  "cfg_foodb_mysql = \<lparr>p_defaults = [], p_sections = [(''foodb, mysql'', example_options)]\<rparr>"

definition cfg_labelled :: ConfigParser where
  "cfg_labelled =
     \<lparr>p_defaults = [], p_sections = [(''mysql(a), postgres'', example_options)]\<rparr>"

definition cfg_with_tablename :: ConfigParser where
  \<comment> \<open>the options in \<^verbatim>\<open>[DEFAULT]\<close>, a section \<^verbatim>\<open>[tablename]\<close> with the option
      \<^verbatim>\<open>usertable\<close>, and two sections of declarations\<close>
  "cfg_with_tablename =
     \<lparr>p_defaults = example_options,
      p_sections =
        [(''tablename'', [(''usertable'', ''t1'')]),
         (''mysql(a), postgres'', []),
         (''foodb, MySQL'', [])]\<rparr>"

definition loaded_printed :: printed where
  \<comment> \<open>what the load of \<open>cfg_with_tablename\<close> prints\<close>
  "loaded_printed =
     [''Invalid database found: tablename. Only (mysql,postgres) are supported. Skipping...'',
      ''Invalid database found: foodb. Only (mysql,postgres) are supported. Skipping...'']"

definition loaded_dbs :: "DbSystem list" where
  \<comment> \<open>the descriptors the load of \<open>cfg_with_tablename\<close> returns\<close>
  "loaded_dbs =
     [\<lparr>db_name = ''mysql'', db_config = example_config, db_label = ''a'', db_tablename = ''t1''\<rparr>,
      \<lparr>db_name = ''postgres'', db_config = example_config, db_label = [], db_tablename = ''t1''\<rparr>,
      \<lparr>db_name = ''MySQL'', db_config = example_config, db_label = [], db_tablename = ''t1''\<rparr>]"

definition cfg_invalid_trials :: ConfigParser where
  \<comment> \<open>all the options are there, and \<^verbatim>\<open>trials\<close> is not an integer\<close>
  "cfg_invalid_trials =
     \<lparr>p_defaults = [],
      p_sections = [(''mysql'', AList.update ''trials'' ''abc'' example_options)]\<rparr>"

definition cfg_invalid_trials_no_min_mpl :: ConfigParser where
  "cfg_invalid_trials_no_min_mpl =
     \<lparr>p_defaults = [],
      p_sections =
        [(''mysql'', AList.update ''trials'' ''abc'' (AList.delete ''min_mpl'' example_options))]\<rparr>"

definition cfg_no_workload :: ConfigParser where
  "cfg_no_workload =
     \<lparr>p_defaults = [],
      p_sections = [(''mysql'', AList.delete ''workload'' example_options)]\<rparr>"

definition cfg_unsupported_only :: ConfigParser where
  \<comment> \<open>a header of unsupported names only, in a section without \<^verbatim>\<open>trials\<close>\<close>
  "cfg_unsupported_only =
     \<lparr>p_defaults = [],
      p_sections = [(''foodb, bardb'', AList.delete ''trials'' example_options)]\<rparr>"

definition cfg_plots_maybe :: ConfigParser where
  "cfg_plots_maybe =
     \<lparr>p_defaults = [],
      p_sections = [(''mysql'', AList.update ''output_plots'' ''maybe'' example_options)]\<rparr>"

definition cfg_plots_maybe_only :: ConfigParser where
  "cfg_plots_maybe_only =
     \<lparr>p_defaults = [], p_sections = [(''mysql'', [(''output_plots'', ''maybe'')])]\<rparr>"

definition cfg_plots_reference :: ConfigParser where
  \<comment> \<open>\<^verbatim>\<open>output_plots=%(x)s\<close>, with \<^verbatim>\<open>x=yes\<close> in \<^verbatim>\<open>[DEFAULT]\<close>\<close>
  "cfg_plots_reference =
     \<lparr>p_defaults = [(''x'', ''yes'')],
      p_sections = [(''mysql'', AList.update ''output_plots'' ''%(x)s'' example_options)]\<rparr>"

definition cfg_plots_percent :: ConfigParser where
  \<comment> \<open>\<^verbatim>\<open>output_plots=50%\<close>: a percent sign that is not valid interpolation syntax\<close>
  "cfg_plots_percent =
     \<lparr>p_defaults = [],
      p_sections = [(''mysql'', AList.update ''output_plots'' ''50%'' example_options)]\<rparr>"

definition cfg_output_percent :: ConfigParser where
  \<comment> \<open>\<^verbatim>\<open>output=A%%B\<close>: an escaped percent sign in the configured string\<close>
  "cfg_output_percent =
     \<lparr>p_defaults = [],
      p_sections = [(''mysql'', AList.update ''output'' ''A%%B'' example_options)]\<rparr>"

definition files_a :: files where
  "files_a path = (if path = ''runner.ini'' then Inr cfg_with_tablename
                   else Inr \<lparr>p_defaults = [], p_sections = []\<rparr>)"

definition files_b :: files where
  "files_b path = (if path = ''runner.ini'' then Inr cfg_with_tablename else Inl ParsingError)"

section \<open>Termination of the interpolation and of the label removal\<close>

lemma KEYCRE_match_shorter:
  assumes "KEYCRE_match rest = Some (name, rest2)"
  shows "length rest2 < length rest"
proof -
  from assms obtain x y cs where r: "rest = x # y # cs"
    by (cases rest; cases "tl rest") (auto simp: KEYCRE_match_def)
  from assms r have "rest2 = drop 2 (dropWhile (\<lambda>c. c \<noteq> CHR '')'') cs)"
    by (auto simp: KEYCRE_match_def Let_def split: if_splits)
  moreover have "length (dropWhile (\<lambda>c. c \<noteq> CHR '')'') cs) \<le> length cs"
    by (rule length_dropWhile_le)
  ultimately show ?thesis using r by simp
qed

lemma dropWhile_percent_nonempty:
  "CHR ''%'' \<in> set rest \<Longrightarrow> dropWhile (\<lambda>c. c \<noteq> CHR ''%'') rest \<noteq> []"
  by simp

termination interpolate_some
  apply (relation "measures [\<lambda>(option, rest, section, m, depth). MAX_INTERPOLATION_DEPTH + 1 - depth, \<lambda>(option, rest, section, m, depth). length rest]")
  subgoal by simp
  subgoal for opt rest sec m depth before rest1 c
    using length_dropWhile_le[of "\<lambda>c. c \<noteq> CHR ''%''" rest] dropWhile_percent_nonempty[of rest]
    by (cases "dropWhile (\<lambda>c. c \<noteq> CHR ''%'') rest") auto
  subgoal by (auto simp: MAX_INTERPOLATION_DEPTH_def)
  subgoal for opt rest sec m depth before rest1 c x2 name rest2
    using length_dropWhile_le[of "\<lambda>c. c \<noteq> CHR ''%''" rest] KEYCRE_match_shorter[of rest1 name rest2]
    by simp
  done

declare interpolate_some.simps [simp del]

termination label_sub
  apply (relation "measure length")
  subgoal by simp
  subgoal for c cs
    using length_dropWhile_le[of "\<lambda>x. x \<noteq> CHR '')''" cs] by simp
  subgoal by simp
  done

section \<open>Option resolution\<close>

lemma lacks_option_get:
  assumes "lacks_option p section k"
  shows "get p section k = Inl (NoOptionError (optionxform k) section)"
  using assms
  by (auto simp: lacks_option_def get_def unify_values_def map_add_def split: option.splits)

text \<open>A string without a percent sign is fetched as it is stored.\<close>

lemma get_without_percent:
  assumes "map_of (p_sections p) section = Some sectiondict"
    and "(map_of (p_defaults p) ++ map_of sectiondict) (optionxform option) = Some v"
    and "CHR ''%'' \<notin> set v"
  shows "get p section option = Inr v"
  using assms
  by (simp add: get_def unify_values_def interpolate_some.simps MAX_INTERPOLATION_DEPTH_def)

lemma OPTION_KEYS_lower: "k \<in> fst ` set OPTION_KEYS \<Longrightarrow> optionxform k = k"
  unfolding OPTION_KEYS_def by (auto; code_simp)

lemma OPTION_KEYS_markers: "item \<in> set OPTION_KEYS \<Longrightarrow> snd item \<noteq> OtherObj"
  by (auto simp: OPTION_KEYS_def)

lemma getint_Inl: "get p section k = Inl e \<Longrightarrow> getint p section k = Inl e"
  by (simp add: getint_def)

lemma getboolean_Inl: "get p section k = Inl e \<Longrightarrow> getboolean p section k = Inl e"
  by (simp add: getboolean_def)

lemma keys_loop_step_fails:
  assumes "get p section k = Inl e" and "t \<noteq> OtherObj"
  shows "process_config_keys_loop p section ((k, t) # items) cfg out = (out, Inl e)"
  using assms by (cases t) (simp_all add: getint_Inl getboolean_Inl)

lemma keys_loop_fails:
  assumes "(k, t) \<in> set items" and "t \<noteq> OtherObj" and "get p section k = Inl e"
  shows "\<exists>e'. snd (process_config_keys_loop p section items cfg out) = Inl e'"
  using assms
proof (induction items arbitrary: cfg out)
  case Nil
  then show ?case by simp
next
  case (Cons item items)
  obtain k' t' where item: "item = (k', t')" by (cases item)
  show ?case
  proof (cases "(k, t) = (k', t')")
    case True
    then show ?thesis
      using Cons.prems item keys_loop_step_fails[of p "section" k e t items cfg out] by simp
  next
    case False
    then have mem: "(k, t) \<in> set items" using Cons.prems item by auto
    note IH = Cons.IH[OF mem Cons.prems(2) Cons.prems(3)]
    show ?thesis
      unfolding item using IH
      by (cases t') (auto split: sum.splits)
  qed
qed

lemma keys_loop_prefix:
  assumes "\<forall>item\<in>set pre. resolves p section item \<and> snd item \<noteq> OtherObj"
  shows "\<exists>cfg'. process_config_keys_loop p section (pre @ rest) cfg out
               = process_config_keys_loop p section rest cfg' out"
  using assms
proof (induction pre arbitrary: cfg)
  case Nil
  then show ?case by auto
next
  case (Cons item pre)
  obtain k t where item: "item = (k, t)" by (cases item)
  have r: "resolves p section (k, t)" and nt: "t \<noteq> OtherObj"
    using Cons.prems item by auto
  have rest: "\<forall>item\<in>set pre. resolves p section item \<and> snd item \<noteq> OtherObj"
    using Cons.prems by simp
  show ?case
    unfolding item using r nt Cons.IH[OF rest]
    by (cases t) (auto simp: resolves_def split: sum.splits)
qed

lemma keys_loop_first_failure:
  assumes "k \<in> fst ` set items"
    and "\<forall>item\<in>set items. snd item \<noteq> OtherObj"
    and "\<forall>item\<in>set (takeWhile (\<lambda>item. fst item \<noteq> k) items). resolves p section item"
    and "get p section k = Inl e"
  shows "process_config_keys_loop p section items cfg out = (out, Inl e)"
proof -
  let ?pre = "takeWhile (\<lambda>item. fst item \<noteq> k) items"
  let ?post = "dropWhile (\<lambda>item. fst item \<noteq> k) items"
  have "?post \<noteq> []" using assms(1) by auto
  then obtain item rest where post: "?post = item # rest" by (cases ?post) auto
  have fk: "fst item = k" using hd_dropWhile[of "\<lambda>item. fst item \<noteq> k" items] post by auto
  have "item \<in> set items" using post set_dropWhileD[of item "\<lambda>item. fst item \<noteq> k" items] by simp
  then have nt: "snd item \<noteq> OtherObj" using assms(2) by blast
  have split: "items = ?pre @ (k, snd item) # rest"
    using post fk takeWhile_dropWhile_id[of "\<lambda>item. fst item \<noteq> k" items] by (cases item) auto
  have pre: "\<forall>item\<in>set ?pre. resolves p section item \<and> snd item \<noteq> OtherObj"
    using assms(2,3) set_takeWhileD by fastforce
  from keys_loop_prefix[OF pre, of "(k, snd item) # rest" cfg out]
  obtain cfg' where "process_config_keys_loop p section (?pre @ (k, snd item) # rest) cfg out
      = process_config_keys_loop p section ((k, snd item) # rest) cfg' out" by blast
  then show ?thesis
    using split keys_loop_step_fails[OF assms(4) nt, of rest cfg' out] by simp
qed

lemma keys_out_empty:
  "\<forall>item\<in>set items. snd item \<noteq> OtherObj \<Longrightarrow>
   fst (process_config_keys_loop p section items cfg out) = out"
proof (induction items arbitrary: cfg)
  case Nil
  then show ?case by simp
next
  case (Cons item items)
  obtain k t where item: "item = (k, t)" by (cases item)
  show ?case using Cons unfolding item by (cases t) (auto split: sum.splits)
qed

lemma process_config_keys_out: "fst (process_config_keys p section) = []"
  unfolding process_config_keys_def using OPTION_KEYS_markers by (intro keys_out_empty) blast

section \<open>The loops over the declarations and over the sections\<close>

lemma dbs_loop_Inr:
  assumes "process_dbs_loop c p cfg pieces acc out = (out', Inr ds)"
  shows "\<exists>new. ds = acc @ new
           \<and> map (\<lambda>d. (db_name d, db_label d)) new
               = filter (\<lambda>(name, label). lower name \<in> set (SUPPORTED_DBS c))
                   (map (name_and_label c) pieces)
           \<and> (\<forall>d\<in>set new. db_config d = cfg)"
  using assms
proof (induction pieces arbitrary: acc out)
  case Nil
  then show ?case by simp
next
  case (Cons piece pieces)
  obtain name label where nl: "name_and_label c piece = (name, label)"
    by (cases "name_and_label c piece")
  show ?case
  proof (cases "lower name \<in> set (SUPPORTED_DBS c)")
    case False
    with Cons.prems nl
    have "process_dbs_loop c p cfg pieces acc (out @ [invalid_database_message c name])
            = (out', Inr ds)"
      by (auto simp: name_and_label_def split: option.splits)
    from Cons.IH[OF this] show ?thesis using nl False by simp
  next
    case True
    with Cons.prems nl obtain tablename where
      "process_dbs_loop c p cfg pieces
         (acc @ [\<lparr>db_name = name, db_config = cfg, db_label = label, db_tablename = tablename\<rparr>])
         out = (out', Inr ds)"
      by (auto simp: name_and_label_def split: option.splits sum.splits)
    from Cons.IH[OF this] show ?thesis using nl True by auto
  qed
qed

text \<open>An unsupported declaration is skipped with its diagnostic, and the loop goes on.\<close>

lemma dbs_loop_skips_unsupported:
  assumes "lower (fst (name_and_label c piece)) \<notin> set (SUPPORTED_DBS c)"
  shows "process_dbs_loop c p cfg (piece # rest) acc out
           = process_dbs_loop c p cfg rest acc
               (out @ [invalid_database_message c (fst (name_and_label c piece))])"
  using assms by (auto simp: name_and_label_def split: option.splits)

lemma process_dbs_Inr:
  assumes "process_dbs c p header cfg = (out, Inr ds)"
  shows "map (\<lambda>d. (db_name d, db_label d)) ds = valid_declarations c header"
    and "\<forall>d\<in>set ds. db_config d = cfg"
  using dbs_loop_Inr[of c p cfg "map strip (split CHR '','' header)" "[]" "[]" out ds] assms
  by (auto simp: process_dbs_def valid_declarations_def)

lemma sections_loop_Inr:
  assumes "process_sections_loop c p secs acc out = (out', Inr ds)"
  shows "map (\<lambda>d. (db_name d, db_label d)) ds
           = map (\<lambda>d. (db_name d, db_label d)) acc @ concat (map (valid_declarations c) secs)"
  using assms
proof (induction secs arbitrary: acc out)
  case Nil
  then show ?case by simp
next
  case (Cons s secs)
  from Cons.prems obtain out1 cfg out2 new where
    keys: "process_config_keys p s = (out1, Inr cfg)" and
    dbs: "process_dbs c p s cfg = (out2, Inr new)" and
    rest: "process_sections_loop c p secs (acc @ new) (out @ out1 @ out2) = (out', Inr ds)"
    by (auto split: prod.splits sum.splits)
  from Cons.IH[OF rest] process_dbs_Inr(1)[OF dbs] show ?case by simp
qed

lemma sections_loop_fails:
  assumes "s \<in> set secs" and "snd (process_config_keys p s) = Inl e"
  shows "\<exists>e'. snd (process_sections_loop c p secs acc out) = Inl e'"
  using assms
proof (induction secs arbitrary: acc out)
  case Nil
  then show ?case by simp
next
  case (Cons s' secs)
  show ?case
  proof (cases "s = s'")
    case True
    with Cons.prems(2) show ?thesis by (auto split: prod.splits sum.splits)
  next
    case False
    with Cons.prems have "s \<in> set secs" by simp
    from Cons.IH[OF this Cons.prems(2)] show ?thesis
      by (auto split: prod.splits sum.splits)
  qed
qed

lemma sections_loop_first_failure:
  assumes "\<forall>s\<in>set before. section_ok c p s"
    and "process_config_keys p s = (out1, Inl e)"
  shows "snd (process_sections_loop c p (before @ s # after) acc out) = Inl e"
  using assms(1)
proof (induction before arbitrary: acc out)
  case Nil
  then show ?case using assms(2) by simp
next
  case (Cons s' before)
  then have ok: "section_ok c p s'" and rest: "\<forall>s\<in>set before. section_ok c p s" by simp_all
  obtain o1 r1 where k: "process_config_keys p s' = (o1, r1)"
    by (cases "process_config_keys p s'")
  with ok obtain cfg where r1: "r1 = Inr cfg"
    by (cases r1) (auto simp: section_ok_def)
  obtain o2 r2 where d: "process_dbs c p s' cfg = (o2, r2)"
    by (cases "process_dbs c p s' cfg")
  with ok k r1 obtain new where r2: "r2 = Inr new"
    by (cases r2) (auto simp: section_ok_def)
  show ?case using Cons.IH[OF rest] k r1 d r2 by simp
qed

text \<open>
  When every option resolves and the table-name look-up returns, or there is no valid
  declaration to look a table name up for, the loops run to their end.
\<close>

lemma keys_resolve_returns:
  assumes "\<forall>item\<in>set OPTION_KEYS. resolves p s item"
  shows "\<exists>cfg. process_config_keys p s = ([], Inr cfg)"
proof -
  have "\<forall>item\<in>set OPTION_KEYS. resolves p s item \<and> snd item \<noteq> OtherObj"
    using assms OPTION_KEYS_markers by blast
  from keys_loop_prefix[OF this, of "[]" "[]" "[]"]
  show ?thesis by (simp add: process_config_keys_def)
qed

lemma dbs_loop_returns:
  assumes "get p ''tablename'' (DEFAULT_TABLENAME c) = Inr tablename
           \<or> filter (\<lambda>(name, label). lower name \<in> set (SUPPORTED_DBS c))
                (map (name_and_label c) pieces) = []"
  shows "\<exists>out' ds. process_dbs_loop c p cfg pieces acc out = (out', Inr ds)"
  using assms
proof (induction pieces arbitrary: acc out)
  case Nil
  then show ?case by simp
next
  case (Cons piece pieces)
  obtain name label where nl: "name_and_label c piece = (name, label)"
    by (cases "name_and_label c piece")
  show ?case
  proof (cases "lower name \<in> set (SUPPORTED_DBS c)")
    case False
    with Cons.prems nl
    have "get p ''tablename'' (DEFAULT_TABLENAME c) = Inr tablename
           \<or> filter (\<lambda>(name, label). lower name \<in> set (SUPPORTED_DBS c))
                (map (name_and_label c) pieces) = []"
      by auto
    from Cons.IH[OF this, of acc "out @ [invalid_database_message c name]"]
    show ?thesis using nl False
      by (auto simp: name_and_label_def split: option.splits)
  next
    case True
    with Cons.prems nl have t: "get p ''tablename'' (DEFAULT_TABLENAME c) = Inr tablename"
      by auto
    then have "get p ''tablename'' (DEFAULT_TABLENAME c) = Inr tablename
           \<or> filter (\<lambda>(name, label). lower name \<in> set (SUPPORTED_DBS c))
                (map (name_and_label c) pieces) = []"
      by simp
    from Cons.IH[OF this,
        of "acc @ [\<lparr>db_name = name, db_config = cfg, db_label = label, db_tablename = tablename\<rparr>]" out]
    show ?thesis using nl True t
      by (auto simp: name_and_label_def split: option.splits)
  qed
qed

lemma process_dbs_returns:
  assumes "get p ''tablename'' (DEFAULT_TABLENAME c) = Inr tablename
           \<or> valid_declarations c header = []"
  shows "\<exists>out' ds. process_dbs c p header cfg = (out', Inr ds)"
  using dbs_loop_returns[of p c tablename "map strip (split CHR '','' header)" cfg "[]" "[]"] assms
  by (simp add: process_dbs_def valid_declarations_def)

lemma sections_loop_returns:
  assumes "\<forall>s\<in>set secs. \<exists>cfg. process_config_keys p s = ([], Inr cfg)"
    and "get p ''tablename'' (DEFAULT_TABLENAME c) = Inr tablename
         \<or> (\<forall>s\<in>set secs. valid_declarations c s = [])"
  shows "\<exists>out' ds. process_sections_loop c p secs acc out = (out', Inr ds)"
  using assms
proof (induction secs arbitrary: acc out)
  case Nil
  then show ?case by simp
next
  case (Cons s secs)
  from Cons.prems(1) obtain cfg where k: "process_config_keys p s = ([], Inr cfg)" by auto
  from Cons.prems(2) have "get p ''tablename'' (DEFAULT_TABLENAME c) = Inr tablename
           \<or> valid_declarations c s = []" by auto
  from process_dbs_returns[OF this, of cfg]
  obtain out2 new where d: "process_dbs c p s cfg = (out2, Inr new)" by blast
  have r1: "\<forall>s\<in>set secs. \<exists>cfg. process_config_keys p s = ([], Inr cfg)"
    using Cons.prems(1) by simp
  have r2: "get p ''tablename'' (DEFAULT_TABLENAME c) = Inr tablename
         \<or> (\<forall>s\<in>set secs. valid_declarations c s = [])"
    using Cons.prems(2) by auto
  from Cons.IH[OF r1 r2, of "acc @ new" "out @ out2"] show ?case using k d by simp
qed

lemma tablename_not_default: "''tablename'' \<noteq> default_section"
  by (simp add: default_section_def)

lemma get_tablename_no_section:
  assumes "''tablename'' \<notin> set (sections p)"
  shows "get p ''tablename'' k = Inl (NoSectionError ''tablename'')"
proof -
  have "map_of (p_sections p) ''tablename'' = None"
    using assms by (simp add: sections_def map_of_eq_None_iff)
  then show ?thesis
    using tablename_not_default by (simp add: get_def unify_values_def)
qed

lemma dbs_loop_tablename_error:
  assumes "get p ''tablename'' (DEFAULT_TABLENAME c) = Inl e"
    and "filter (\<lambda>(name, label). lower name \<in> set (SUPPORTED_DBS c))
           (map (name_and_label c) pieces) \<noteq> []"
  shows "snd (process_dbs_loop c p cfg pieces acc out) = Inl e"
  using assms(2)
proof (induction pieces arbitrary: out)
  case Nil
  then show ?case by simp
next
  case (Cons piece pieces)
  obtain name label where nl: "name_and_label c piece = (name, label)"
    by (cases "name_and_label c piece")
  show ?case
  proof (cases "lower name \<in> set (SUPPORTED_DBS c)")
    case True
    then show ?thesis using nl assms(1)
      by (auto simp: name_and_label_def split: option.splits)
  next
    case False
    with Cons.prems nl have "filter (\<lambda>(name, label). lower name \<in> set (SUPPORTED_DBS c))
           (map (name_and_label c) pieces) \<noteq> []" by simp
    from Cons.IH[OF this] show ?thesis using nl False
      by (auto simp: name_and_label_def split: option.splits)
  qed
qed

lemma process_dbs_no_tablename_section:
  assumes "''tablename'' \<notin> set (sections p)" and "valid_declarations c header \<noteq> []"
  shows "snd (process_dbs c p header cfg) = Inl (NoSectionError ''tablename'')"
  using dbs_loop_tablename_error[OF get_tablename_no_section[OF assms(1)]] assms(2)
  by (simp add: process_dbs_def valid_declarations_def)

lemma lacks_option_section:
  assumes "lacks_option p s k"
  shows "s \<in> set (sections p)"
proof -
  from assms obtain d where "map_of (p_sections p) s = Some d"
    by (auto simp: lacks_option_def split: option.splits)
  then have "(s, d) \<in> set (p_sections p)" by (rule map_of_SomeD)
  then show ?thesis by (force simp: sections_def)
qed

lemma lacks_option_keys_fail:
  assumes "lacks_option p s k" and "k \<in> fst ` set OPTION_KEYS"
  shows "\<exists>e. process_config_keys p s = ([], Inl e)"
proof -
  have g: "get p s k = Inl (NoOptionError k s)"
    using lacks_option_get[OF assms(1)] OPTION_KEYS_lower[OF assms(2)] by simp
  from assms(2) obtain t where mem: "(k, t) \<in> set OPTION_KEYS" by auto
  then have "t \<noteq> OtherObj" using OPTION_KEYS_markers by fastforce
  from keys_loop_fails[OF mem this g]
  obtain e where "snd (process_config_keys p s) = Inl e"
    unfolding process_config_keys_def by blast
  then show ?thesis
    using process_config_keys_out[of p s] by (cases "process_config_keys p s") auto
qed

section \<open>The table name\<close>

text \<open>
  Claim C1 (the default table name): a configuration without a \<^verbatim>\<open>tablename\<close> entry is
  claimed to give every descriptor the constant \<^verbatim>\<open>DEFAULT_TABLENAME\<close>, and never to make
  the load fail. The call \<^verbatim>\<open>self.config.get("tablename", DEFAULT_TABLENAME)\<close> passes the
  constant as the option name, not as a fallback: on the configuration with the single
  section \<^verbatim>\<open>[mysql]\<close> and all its options the load raises \<^verbatim>\<open>NoSectionError\<close> and
  returns no descriptor.
\<close>

theorem default_tablename_lookup_fails:
  "process_sections spec_constants cfg_single = ([], Inl (NoSectionError ''tablename''))"
  by code_simp

text \<open>
  Claim C2 (unsupported names are skipped): for the header \<^verbatim>\<open>foodb, mysql\<close> the
  diagnostic that names \<^verbatim>\<open>foodb\<close> and the supported names is printed and the loop goes
  on to \<^verbatim>\<open>mysql\<close>, where the table-name look-up of claim C1 raises: the load aborts
  instead of returning the one descriptor.
\<close>

theorem unsupported_then_supported_aborts:
  "process_sections spec_constants cfg_foodb_mysql =
     ([''Invalid database found: foodb. Only (mysql,postgres) are supported. Skipping...''],
      Inl (NoSectionError ''tablename''))"
  by code_simp

text \<open>
  Claim C5 (the round trip of the spec): for the header \<^verbatim>\<open>mysql(a), postgres\<close> the
  options of the section resolve to the expected option set, and the processing of the
  header then raises at its first declaration, in the table-name look-up of claim C1,
  instead of returning the two descriptors.
\<close>

theorem labelled_header_aborts:
  "process_config_keys cfg_labelled ''mysql(a), postgres'' = ([], Inr example_config)
   \<and> process_dbs spec_constants cfg_labelled ''mysql(a), postgres'' example_config
       = ([], Inl (NoSectionError ''tablename''))"
  by code_simp

text \<open>
  In a file that has a section \<^verbatim>\<open>[tablename]\<close> with an option named by
  \<^verbatim>\<open>DEFAULT_TABLENAME\<close>, the look-up returns the value of that option and the two headers
  are processed to the end.
\<close>

lemma foodb_mysql_with_tablename:
  "process_dbs spec_constants cfg_with_tablename ''foodb, mysql'' example_config =
     ([''Invalid database found: foodb. Only (mysql,postgres) are supported. Skipping...''],
      Inr [\<lparr>db_name = ''mysql'', db_config = example_config, db_label = [],
            db_tablename = ''t1''\<rparr>])"
  by code_simp

lemma labelled_header_with_tablename:
  "process_dbs spec_constants cfg_with_tablename ''mysql(a), postgres'' example_config =
     ([],
      Inr [\<lparr>db_name = ''mysql'', db_config = example_config, db_label = ''a'',
            db_tablename = ''t1''\<rparr>,
           \<lparr>db_name = ''postgres'', db_config = example_config, db_label = [],
            db_tablename = ''t1''\<rparr>])"
  by code_simp

section \<open>Missing options\<close>

text \<open>
  Claim C3, as amended: when a section lacks one of the required options the load
  fails, so no descriptor is returned for the whole file and no default stands in for
  the option; the error is \<^verbatim>\<open>NoOptionError\<close> (the spec's MissingOptionError) for that
  option and section when every section before it is processed without error and every
  option before it in \<^verbatim>\<open>OPTION_KEYS\<close> resolves in the section.
\<close>

theorem missing_option_aborts:
  assumes "lacks_option p s k" and "k \<in> fst ` set OPTION_KEYS"
  shows "(\<exists>e. snd (process_sections c p) = Inl e)
       \<and> (sections p = before @ s # after
            \<and> (\<forall>s'\<in>set before. section_ok c p s')
            \<and> (\<forall>item\<in>set (takeWhile (\<lambda>item. fst item \<noteq> k) OPTION_KEYS). resolves p s item)
            \<longrightarrow> snd (process_sections c p) = Inl (NoOptionError k s))"
proof (intro conjI impI)
  from lacks_option_keys_fail[OF assms] obtain e where "process_config_keys p s = ([], Inl e)"
    by blast
  then have "snd (process_config_keys p s) = Inl e" by simp
  from sections_loop_fails[OF lacks_option_section[OF assms(1)] this]
  show "\<exists>e. snd (process_sections c p) = Inl e"
    by (simp add: process_sections_def)
next
  assume h: "sections p = before @ s # after
            \<and> (\<forall>s'\<in>set before. section_ok c p s')
            \<and> (\<forall>item\<in>set (takeWhile (\<lambda>item. fst item \<noteq> k) OPTION_KEYS). resolves p s item)"
  have g: "get p s k = Inl (NoOptionError k s)"
    using lacks_option_get[OF assms(1)] OPTION_KEYS_lower[OF assms(2)] by simp
  have nt: "\<forall>item\<in>set OPTION_KEYS. snd item \<noteq> OtherObj"
    using OPTION_KEYS_markers by blast
  have "process_config_keys p s = ([], Inl (NoOptionError k s))"
    unfolding process_config_keys_def
    using keys_loop_first_failure[OF assms(2) nt _ g] h by blast
  from sections_loop_first_failure[OF _ this] h
  show "snd (process_sections c p) = Inl (NoOptionError k s)"
    by (simp add: process_sections_def)
qed

text \<open>
  The theorem at the section \<^verbatim>\<open>[mysql]\<close> of a file that has every option but
  \<^verbatim>\<open>workload\<close>.
\<close>

theorem missing_option_aborts_witness:
  "lacks_option cfg_no_workload ''mysql'' ''workload''
   \<and> ''workload'' \<in> fst ` set OPTION_KEYS
   \<and> process_sections spec_constants cfg_no_workload
       = ([], Inl (NoOptionError ''workload'' ''mysql''))"
proof -
  have h1: "lacks_option cfg_no_workload ''mysql'' ''workload''" by code_simp
  have h2: "''workload'' \<in> fst ` set OPTION_KEYS" by (simp add: OPTION_KEYS_def)
  have h3: "sections cfg_no_workload = [] @ ''mysql'' # []" by code_simp
  have h4: "\<forall>item\<in>set (takeWhile (\<lambda>item. fst item \<noteq> ''workload'') OPTION_KEYS).
              resolves cfg_no_workload ''mysql'' item"
    by code_simp
  have "snd (process_sections spec_constants cfg_no_workload) = Inl (NoOptionError ''workload'' ''mysql'')"
    using missing_option_aborts[OF h1 h2, of spec_constants "[]" "[]"] h3 h4 by simp
  moreover have "fst (process_sections spec_constants cfg_no_workload) = []" by code_simp
  ultimately show ?thesis using h1 h2 by (simp add: prod_eq_iff)
qed

text \<open>
  Claim C3 as stated fails: in a section without \<^verbatim>\<open>min_mpl\<close> whose \<^verbatim>\<open>trials\<close> is
  not an integer, the load raises the \<^verbatim>\<open>ValueError\<close> of \<^verbatim>\<open>trials\<close>, which comes first
  in \<^verbatim>\<open>OPTION_KEYS\<close>, and not an error that names \<^verbatim>\<open>min_mpl\<close>.
\<close>

theorem missing_option_counterexample:
  "lacks_option cfg_invalid_trials_no_min_mpl ''mysql'' ''min_mpl''
   \<and> process_sections spec_constants cfg_invalid_trials_no_min_mpl = ([], Inl (ValueError ''abc''))"
  by code_simp

text \<open>
  Claim C10 (the options come first): a section that lacks a required option makes the
  load fail whatever its header declares, supported names or not. At such a section the
  loop over the sections stops with the error of the option resolution and prints
  nothing: the header has not been looked at, so no declaration of it has been
  validated and no diagnostic about it is printed.
\<close>

theorem options_resolved_before_databases:
  assumes "lacks_option p section k" and "k \<in> fst ` set OPTION_KEYS"
  shows "(\<exists>e. process_config_keys p section = ([], Inl e)
            \<and> process_sections_loop c p (section # rest) acc out = (out, Inl e))
       \<and> (\<exists>e. snd (process_sections c p) = Inl e)"
proof -
  from lacks_option_keys_fail[OF assms] obtain e where
    e: "process_config_keys p section = ([], Inl e)" by blast
  then have "snd (process_config_keys p section) = Inl e" by simp
  from sections_loop_fails[OF lacks_option_section[OF assms(1)] this]
  have "\<exists>e. snd (process_sections c p) = Inl e"
    by (simp add: process_sections_def)
  then show ?thesis using e by simp
qed

text \<open>
  The theorem at a section whose header \<^verbatim>\<open>foodb, bardb\<close> declares unsupported names only
  and that has no \<^verbatim>\<open>trials\<close>: the load is aborted and nothing is printed.
\<close>

theorem options_resolved_before_databases_witness:
  "lacks_option cfg_unsupported_only ''foodb, bardb'' ''trials''
   \<and> ''trials'' \<in> fst ` set OPTION_KEYS
   \<and> valid_declarations spec_constants ''foodb, bardb'' = []
   \<and> process_sections spec_constants cfg_unsupported_only
       = ([], Inl (NoOptionError ''trials'' ''foodb, bardb''))"
proof -
  have h1: "lacks_option cfg_unsupported_only ''foodb, bardb'' ''trials''" by code_simp
  have h2: "''trials'' \<in> fst ` set OPTION_KEYS" by (simp add: OPTION_KEYS_def)
  have h3: "valid_declarations spec_constants ''foodb, bardb'' = []" by code_simp
  have h4: "process_config_keys cfg_unsupported_only ''foodb, bardb''
              = ([], Inl (NoOptionError ''trials'' ''foodb, bardb''))" by code_simp
  have h5: "sections cfg_unsupported_only = [''foodb, bardb'']" by code_simp
  from options_resolved_before_databases[OF h1 h2, of spec_constants "[]" "[]" "[]"] h4 h5
  have "process_sections spec_constants cfg_unsupported_only
       = ([], Inl (NoOptionError ''trials'' ''foodb, bardb''))"
    by (simp add: process_sections_def)
  then show ?thesis using h1 h2 h3 by simp
qed

section \<open>Order and number of the descriptors\<close>

text \<open>
  Claim C4 (order): when the load succeeds, the names and labels of the descriptors are
  those of the valid declarations of the sections, section after section in the order
  of \<^verbatim>\<open>sections()\<close>, which is the order of the file, and within a section in the order
  of the comma-separated declarations of its header.
\<close>

theorem descriptors_in_file_order:
  assumes "process_sections c p = (out, Inr ds)"
  shows "map (\<lambda>d. (db_name d, db_label d)) ds = concat (map (valid_declarations c) (sections p))"
  using sections_loop_Inr[of c p "sections p" "[]" "[]" out ds] assms
  by (simp add: process_sections_def)

text \<open>
  The theorem at a file with a \<^verbatim>\<open>[tablename]\<close> section and the sections
  \<^verbatim>\<open>[mysql(a), postgres]\<close> and \<^verbatim>\<open>[foodb, MySQL]\<close>.
\<close>

theorem descriptors_in_file_order_witness:
  "process_sections spec_constants cfg_with_tablename = (loaded_printed, Inr loaded_dbs)
   \<and> map (\<lambda>d. (db_name d, db_label d)) loaded_dbs
       = [(''mysql'', ''a''), (''postgres'', []), (''MySQL'', [])]"
proof -
  have h: "process_sections spec_constants cfg_with_tablename = (loaded_printed, Inr loaded_dbs)"
    by code_simp
  have "concat (map (valid_declarations spec_constants) (sections cfg_with_tablename))
          = [(''mysql'', ''a''), (''postgres'', []), (''MySQL'', [])]"
    by code_simp
  then show ?thesis using descriptors_in_file_order[OF h] h by simp
qed

text \<open>
  Claim C6, as amended: when the options of every section resolve (every required key
  is there and its value passes its coercion), and the table-name look-up
  \<^verbatim>\<open>self.config.get("tablename", DEFAULT_TABLENAME)\<close> returns a value or no section has a
  valid declaration, the load returns a list of descriptors, and the length of the list
  is the number of valid declarations summed over the sections of the file. What the
  load does when the look-up raises is the subject of claim C1 and is left out here.
\<close>

theorem descriptor_count:
  assumes "options_resolve p"
    and "get p ''tablename'' (DEFAULT_TABLENAME c) = Inr tablename
         \<or> (\<forall>section\<in>set (sections p). valid_declarations c section = [])"
  shows "\<exists>out ds. process_sections c p = (out, Inr ds)
           \<and> length ds
               = sum_list (map (\<lambda>section. length (valid_declarations c section)) (sections p))"
proof -
  have "\<forall>s\<in>set (sections p). \<exists>cfg. process_config_keys p s = ([], Inr cfg)"
    using assms(1) keys_resolve_returns by (simp add: options_resolve_def)
  from sections_loop_returns[OF this assms(2), of "[]" "[]"]
  obtain out ds where r: "process_sections c p = (out, Inr ds)"
    by (auto simp: process_sections_def)
  have "length ds = length (map (\<lambda>d. (db_name d, db_label d)) ds)" by simp
  also have "\<dots> = length (concat (map (valid_declarations c) (sections p)))"
    using sections_loop_Inr[of c p "sections p" "[]" "[]" out ds] r
    by (simp add: process_sections_def)
  also have "\<dots> = sum_list (map (\<lambda>section. length (valid_declarations c section)) (sections p))"
    by (simp add: length_concat comp_def)
  finally show ?thesis using r by simp
qed

text \<open>
  The theorem at the file with a \<^verbatim>\<open>[tablename]\<close> section: the load returns three
  descriptors for three valid declarations.
\<close>

theorem descriptor_count_witness:
  "options_resolve cfg_with_tablename
   \<and> get cfg_with_tablename ''tablename'' (DEFAULT_TABLENAME spec_constants) = Inr ''t1''
   \<and> process_sections spec_constants cfg_with_tablename = (loaded_printed, Inr loaded_dbs)
   \<and> length loaded_dbs = 3
   \<and> sum_list (map (\<lambda>section. length (valid_declarations spec_constants section))
        (sections cfg_with_tablename)) = 3"
proof -
  have h1: "options_resolve cfg_with_tablename" by code_simp
  have h2: "get cfg_with_tablename ''tablename'' (DEFAULT_TABLENAME spec_constants) = Inr ''t1''"
    by code_simp
  have h: "process_sections spec_constants cfg_with_tablename = (loaded_printed, Inr loaded_dbs)"
    by code_simp
  have s: "sum_list (map (\<lambda>section. length (valid_declarations spec_constants section))
        (sections cfg_with_tablename)) = 3"
    by code_simp
  from descriptor_count[OF h1 disjI1[OF h2]] h s
  have "length loaded_dbs = 3" by auto
  then show ?thesis using h1 h2 h s by simp
qed

text \<open>
  Claim C6 as stated fails: a file whose only section has all the required options, with
  \<^verbatim>\<open>trials=abc\<close>, is valid INI, and the load returns no list, it raises the
  \<^verbatim>\<open>ValueError\<close> of \<^verbatim>\<open>getint\<close>.
\<close>

theorem descriptor_count_counterexample:
  "has_required_options cfg_invalid_trials
   \<and> process_sections spec_constants cfg_invalid_trials = ([], Inl (ValueError ''abc''))"
  by code_simp

text \<open>
  The two hypotheses on the table name are needed and independent of the options: with
  every option resolving, the file of claim C1 has one valid declaration and no
  \<^verbatim>\<open>[tablename]\<close> section, and its load raises; a file with unsupported names only
  loads to the empty list without any table name.
\<close>

lemma well_typed_file_without_tablename_aborts:
  "options_resolve cfg_single
   \<and> process_sections spec_constants cfg_single = ([], Inl (NoSectionError ''tablename''))"
  by code_simp

lemma unsupported_only_file_returns:
  "process_sections spec_constants
     \<lparr>p_defaults = [], p_sections = [(''foodb, bardb'', example_options)]\<rparr>
   = ([''Invalid database found: foodb. Only (mysql,postgres) are supported. Skipping...'',
       ''Invalid database found: bardb. Only (mysql,postgres) are supported. Skipping...''],
      Inr [])"
  by code_simp

section \<open>Option values\<close>

text \<open>
  Claim C7, as amended: when the options of a section resolve, the value of \<^verbatim>\<open>output\<close>
  in the resolved option set is the configured string as the parser's \<^verbatim>\<open>get\<close> returns
  it, in lower case; \<^verbatim>\<open>get\<close> returns the configured string with its interpolation
  expanded, and the configured string itself when it has no percent sign.
\<close>

theorem output_lowercased:
  assumes "process_config_keys p section = (out, Inr cfg)"
  shows "(\<exists>s. get p section ''output'' = Inr s
            \<and> map_of cfg ''output'' = Some (StrVal (lower s)))
       \<and> (map_of (p_sections p) section = Some sectiondict
            \<and> (map_of (p_defaults p) ++ map_of sectiondict) ''output'' = Some v
            \<and> CHR ''%'' \<notin> set v
          \<longrightarrow> map_of cfg ''output'' = Some (StrVal (lower v)))"
proof -
  have fetched: "\<exists>s. get p section ''output'' = Inr s
                   \<and> map_of cfg ''output'' = Some (StrVal (lower s))"
    using assms
    by (auto simp: process_config_keys_def OPTION_KEYS_def split: sum.splits)
  have x: "optionxform ''output'' = ''output''" by code_simp
  show ?thesis
  proof (intro conjI impI)
    show "\<exists>s. get p section ''output'' = Inr s
            \<and> map_of cfg ''output'' = Some (StrVal (lower s))"
      by (rule fetched)
  next
    assume stored: "map_of (p_sections p) section = Some sectiondict
            \<and> (map_of (p_defaults p) ++ map_of sectiondict) ''output'' = Some v
            \<and> CHR ''%'' \<notin> set v"
    note s1 = conjunct1[OF stored]
      and s2 = conjunct1[OF conjunct2[OF stored]]
      and s3 = conjunct2[OF conjunct2[OF stored]]
    have "get p section ''output'' = Inr v"
      by (rule get_without_percent[of p "section" sectiondict "''output''" v, unfolded x,
            OF s1 s2 s3])
    with fetched show "map_of cfg ''output'' = Some (StrVal (lower v))" by auto
  qed
qed

text \<open>
  The theorem at a section with \<^verbatim>\<open>output=CSV\<close>: the resolved value is \<^verbatim>\<open>csv\<close>.
\<close>

theorem output_lowercased_witness:
  "process_config_keys cfg_single ''mysql'' = ([], Inr example_config)
   \<and> map_of (p_sections cfg_single) ''mysql'' = Some example_options
   \<and> map_of example_options ''output'' = Some ''CSV''
   \<and> map_of example_config ''output'' = Some (StrVal ''csv'')"
proof -
  have h: "process_config_keys cfg_single ''mysql'' = ([], Inr example_config)" by code_simp
  have d: "map_of (p_sections cfg_single) ''mysql'' = Some example_options" by code_simp
  have v: "(map_of (p_defaults cfg_single) ++ map_of example_options) ''output'' = Some ''CSV''"
    by code_simp
  have r: "map_of example_options ''output'' = Some ''CSV''" by code_simp
  have n: "CHR ''%'' \<notin> set ''CSV''" by simp
  have l: "lower ''CSV'' = ''csv''" by code_simp
  from output_lowercased[OF h, of example_options "''CSV''"] d v n l
  have "map_of example_config ''output'' = Some (StrVal ''csv'')" by simp
  then show ?thesis using h d r by simp
qed

text \<open>
  Claim C7 as stated fails: the configured string \<^verbatim>\<open>A%%B\<close> in lower case is
  \<^verbatim>\<open>a%%b\<close>, and the resolved value of \<^verbatim>\<open>output\<close> is \<^verbatim>\<open>a%b\<close>, since the parser's
  \<^verbatim>\<open>get\<close> expands the escaped percent sign before the runner lower-cases the string.
\<close>

theorem output_lowercased_counterexample:
  "map_of (p_sections cfg_output_percent) ''mysql''
     = Some (AList.update ''output'' ''A%%B'' example_options)
   \<and> map_of (AList.update ''output'' ''A%%B'' example_options) ''output'' = Some ''A%%B''
   \<and> lower ''A%%B'' = ''a%%b''
   \<and> process_config_keys cfg_output_percent ''mysql''
       = ([], Inr (AList.update ''output'' (StrVal ''a%b'') example_config))"
  by code_simp

text \<open>
  Claim C9, as amended: when the string that the parser's \<^verbatim>\<open>get\<close> returns for
  \<^verbatim>\<open>output_plots\<close> in a section (the configured string with its interpolation expanded;
  the configured string itself when it has no percent sign) is none of the tokens of
  \<^verbatim>\<open>BOOLEAN_STATES\<close>, in any letter case, the option resolution of the section fails and
  produces no option set; the error is the \<^verbatim>\<open>ValueError\<close> of \<^verbatim>\<open>getboolean\<close> (the
  spec's InvalidOptionType) when the six options before \<^verbatim>\<open>output_plots\<close> in
  \<^verbatim>\<open>OPTION_KEYS\<close> resolve.
\<close>

theorem invalid_output_plots_fails:
  assumes "map_of BOOLEAN_STATES (lower v) = None"
    and "get p section ''output_plots'' = Inr v
         \<or> (map_of (p_sections p) section = Some sectiondict
            \<and> (map_of (p_defaults p) ++ map_of sectiondict) ''output_plots'' = Some v
            \<and> CHR ''%'' \<notin> set v)"
  shows "(\<exists>e. snd (process_config_keys p section) = Inl e)
       \<and> ((\<forall>item\<in>set (takeWhile (\<lambda>item. fst item \<noteq> ''output_plots'') OPTION_KEYS).
              resolves p section item)
            \<longrightarrow> process_config_keys p section = ([], Inl (ValueError v)))"
proof -
  have x: "optionxform ''output_plots'' = ''output_plots''" by code_simp
  have g: "get p section ''output_plots'' = Inr v"
  proof (rule disjE[OF assms(2)])
    assume "get p section ''output_plots'' = Inr v"
    then show ?thesis .
  next
    assume stored: "map_of (p_sections p) section = Some sectiondict
            \<and> (map_of (p_defaults p) ++ map_of sectiondict) ''output_plots'' = Some v
            \<and> CHR ''%'' \<notin> set v"
    note s1 = conjunct1[OF stored]
      and s2 = conjunct1[OF conjunct2[OF stored]]
      and s3 = conjunct2[OF conjunct2[OF stored]]
    show ?thesis
      by (rule get_without_percent[of p "section" sectiondict "''output_plots''" v, unfolded x,
            OF s1 s2 s3])
  qed
  have b: "getboolean p section ''output_plots'' = Inl (ValueError v)"
    using g assms(1) by (simp add: getboolean_def)
  show ?thesis
    using b
    by (auto simp: process_config_keys_def OPTION_KEYS_def resolves_def split: sum.splits)
qed

text \<open>
  The theorem at a section with all the options and the configured string
  \<^verbatim>\<open>output_plots=maybe\<close>.
\<close>

theorem invalid_output_plots_fails_witness:
  "map_of (p_sections cfg_plots_maybe) ''mysql''
     = Some (AList.update ''output_plots'' ''maybe'' example_options)
   \<and> map_of (AList.update ''output_plots'' ''maybe'' example_options) ''output_plots''
       = Some ''maybe''
   \<and> map_of BOOLEAN_STATES (lower ''maybe'') = None
   \<and> process_config_keys cfg_plots_maybe ''mysql'' = ([], Inl (ValueError ''maybe''))"
proof -
  have h1: "map_of BOOLEAN_STATES (lower ''maybe'') = None" by code_simp
  have d: "map_of (p_sections cfg_plots_maybe) ''mysql''
     = Some (AList.update ''output_plots'' ''maybe'' example_options)" by code_simp
  have r: "map_of (AList.update ''output_plots'' ''maybe'' example_options) ''output_plots''
       = Some ''maybe''" by code_simp
  have v: "(map_of (p_defaults cfg_plots_maybe)
             ++ map_of (AList.update ''output_plots'' ''maybe'' example_options)) ''output_plots''
           = Some ''maybe''" by code_simp
  have n: "CHR ''%'' \<notin> set ''maybe''" by simp
  have h3: "\<forall>item\<in>set (takeWhile (\<lambda>item. fst item \<noteq> ''output_plots'') OPTION_KEYS).
              resolves cfg_plots_maybe ''mysql'' item" by code_simp
  have h2: "get cfg_plots_maybe ''mysql'' ''output_plots'' = Inr ''maybe''
         \<or> (map_of (p_sections cfg_plots_maybe) ''mysql''
               = Some (AList.update ''output_plots'' ''maybe'' example_options)
            \<and> (map_of (p_defaults cfg_plots_maybe)
                 ++ map_of (AList.update ''output_plots'' ''maybe'' example_options))
                 ''output_plots'' = Some ''maybe''
            \<and> CHR ''%'' \<notin> set ''maybe'')"
    using d v n by blast
  from invalid_output_plots_fails[OF h1 h2] h3
  have "process_config_keys cfg_plots_maybe ''mysql'' = ([], Inl (ValueError ''maybe''))"
    by blast
  then show ?thesis using h1 d r by simp
qed

text \<open>
  Claim C9 as stated fails in two ways. In a section that has \<^verbatim>\<open>output_plots=maybe\<close>
  and no \<^verbatim>\<open>trials\<close>, the option resolution fails with the \<^verbatim>\<open>NoOptionError\<close> of
  \<^verbatim>\<open>trials\<close>, which comes first in \<^verbatim>\<open>OPTION_KEYS\<close>, and not with the error of the
  boolean. In a section with \<^verbatim>\<open>output_plots=%(x)s\<close>, where \<^verbatim>\<open>x=yes\<close> is an option of
  \<^verbatim>\<open>[DEFAULT]\<close>, the configured string is no token and the resolution does not fail:
  the parser's \<^verbatim>\<open>get\<close> expands the reference, and the value is \<open>True\<close>.
\<close>

theorem invalid_output_plots_counterexample:
  "get cfg_plots_maybe_only ''mysql'' ''output_plots'' = Inr ''maybe''
   \<and> map_of BOOLEAN_STATES (lower ''maybe'') = None
   \<and> process_config_keys cfg_plots_maybe_only ''mysql''
       = ([], Inl (NoOptionError ''trials'' ''mysql''))
   \<and> map_of (p_sections cfg_plots_reference) ''mysql''
       = Some (AList.update ''output_plots'' ''%(x)s'' example_options)
   \<and> map_of (AList.update ''output_plots'' ''%(x)s'' example_options) ''output_plots''
       = Some ''%(x)s''
   \<and> map_of BOOLEAN_STATES (lower ''%(x)s'') = None
   \<and> process_config_keys cfg_plots_reference ''mysql'' = ([], Inr example_config)"
  by code_simp

text \<open>
  When \<^verbatim>\<open>get\<close> itself raises for \<^verbatim>\<open>output_plots\<close>, the resolution fails as well, with
  that error when the six options before it resolve: so it does for
  \<^verbatim>\<open>output_plots=50%\<close>, whose percent sign is not valid interpolation syntax.
\<close>

lemma output_plots_get_fails:
  assumes "get p section ''output_plots'' = Inl e"
  shows "(\<exists>e'. snd (process_config_keys p section) = Inl e')
       \<and> ((\<forall>item\<in>set (takeWhile (\<lambda>item. fst item \<noteq> ''output_plots'') OPTION_KEYS).
              resolves p section item)
            \<longrightarrow> process_config_keys p section = ([], Inl e))"
proof -
  have b: "getboolean p section ''output_plots'' = Inl e"
    using assms by (rule getboolean_Inl)
  show ?thesis
    using b
    by (auto simp: process_config_keys_def OPTION_KEYS_def resolves_def split: sum.splits)
qed

lemma output_plots_bad_percent:
  "process_config_keys cfg_plots_percent ''mysql''
     = ([], Inl (InterpolationSyntaxError ''output_plots'' ''mysql''))"
  by code_simp

section \<open>Loading twice\<close>

text \<open>
  Claim C8 (idempotence): when a load has succeeded, a second load of the same path,
  with the content of that file unchanged, prints the same lines and builds an object
  with the same parser state and the same list of descriptors, whatever the object it
  starts from (a new one or the one the first load built) and whatever has happened to
  the other files.
\<close>

theorem load_twice_equal:
  assumes "RunnerConfig_init c fs1 self1 configfile = (out, Inr rc)"
    and "fs2 configfile = fs1 configfile"
  shows "RunnerConfig_init c fs2 self2 configfile = (out, Inr rc)"
  using assms
  by (auto simp: RunnerConfig_init_def Let_def split: sum.splits prod.splits)

text \<open>
  The theorem at the file \<^verbatim>\<open>runner.ini\<close>, loaded a second time into the object the
  first load built, after the other files have changed.
\<close>

theorem load_twice_equal_witness:
  "RunnerConfig_init spec_constants files_a
       \<lparr>self_config = \<lparr>p_defaults = [], p_sections = []\<rparr>, self_dbs = []\<rparr> ''runner.ini''
     = (loaded_printed, Inr \<lparr>self_config = cfg_with_tablename, self_dbs = loaded_dbs\<rparr>)
   \<and> files_b ''runner.ini'' = files_a ''runner.ini''
   \<and> RunnerConfig_init spec_constants files_b
       \<lparr>self_config = cfg_with_tablename, self_dbs = loaded_dbs\<rparr> ''runner.ini''
     = (loaded_printed, Inr \<lparr>self_config = cfg_with_tablename, self_dbs = loaded_dbs\<rparr>)"
proof -
  have h: "RunnerConfig_init spec_constants files_a
       \<lparr>self_config = \<lparr>p_defaults = [], p_sections = []\<rparr>, self_dbs = []\<rparr> ''runner.ini''
     = (loaded_printed, Inr \<lparr>self_config = cfg_with_tablename, self_dbs = loaded_dbs\<rparr>)"
    by code_simp
  have f: "files_b ''runner.ini'' = files_a ''runner.ini''"
    by (simp add: files_a_def files_b_def)
  from load_twice_equal[where ?fs2.0 = files_b, OF h f] h f show ?thesis by simp
qed

end
